theory Spec2Isabelle
  imports Main "HOL-Library.Word"
begin

unbundle bit_operations_syntax

section \<open>Data model of qbb\_perft.c\<close>

text \<open>
  Bitboards are 64-bit unsigned integers, the fields of a move and the small fields of a
  board are bytes.  Square indices that the source keeps in \<open>uint64_t\<close> or \<open>int\<close>
  variables and only uses as shift counts or table indices are natural numbers.
\<close>

type_synonym TBB = "64 word"

definition WHITE :: "8 word" where "WHITE = 0"
definition BLACK :: "8 word" where "BLACK = 8"
definition MAX_PLY :: nat where "MAX_PLY = 32"

text \<open>\<open>TPieceType\<close>: the source does arithmetic on the enumerators, so they are bytes.\<close>

definition EMPTY :: "8 word" where "EMPTY = 0"
definition PAWN :: "8 word" where "PAWN = 1"
definition KNIGHT :: "8 word" where "KNIGHT = 2"
definition BISHOP :: "8 word" where "BISHOP = 3"
definition ROOK :: "8 word" where "ROOK = 4"
definition QUEEN :: "8 word" where "QUEEN = 5"
definition KING :: "8 word" where "KING = 6"

text \<open>\<open>TMoveType\<close> flags.\<close>

definition CASTLE :: "8 word" where "CASTLE = 0x40"
definition PROMO :: "8 word" where "PROMO = 0x20"
definition EP :: "8 word" where "EP = 0x10"
definition CAPTURE :: "8 word" where "CAPTURE = 0x08"

lemmas piece_defs = EMPTY_def PAWN_def KNIGHT_def BISHOP_def ROOK_def QUEEN_def KING_def
lemmas flag_defs = CASTLE_def PROMO_def EP_def CAPTURE_def

record TMove =
  MoveType :: "8 word"
  From :: "8 word"
  To :: "8 word"
  Prom :: "8 word"

record TBoard =
  PM :: TBB
  P0 :: TBB
  P1 :: TBB
  P2 :: TBB
  CastleFlags :: "8 word"
  EnPassant :: "8 word"
  STM :: "8 word"

text \<open>
  The global array \<open>Game[MAX_PLY]\<close> and the pointer \<open>Position\<close> into it; the pointer is
  the index of the current entry.
\<close>

record TState =
  Game :: "TBoard list"
  Position :: nat

definition cur :: "TState \<Rightarrow> TBoard" where
  "cur s = Game s ! Position s"

text \<open>
  A constant table of the source, read at an index.  Reading outside the table is
  undefined in C; the model reads 0 there.
\<close>

definition tbl :: "TBB list \<Rightarrow> nat \<Rightarrow> TBB" where
  "tbl xs i = (if i < length xs then xs ! i else 0)"

definition KnightDest :: "TBB list" where
  "KnightDest =
   [0x0000000000020400, 0x0000000000050800, 0x00000000000a1100, 0x0000000000142200,
    0x0000000000284400, 0x0000000000508800, 0x0000000000a01000, 0x0000000000402000,
    0x0000000002040004, 0x0000000005080008, 0x000000000a110011, 0x0000000014220022,
    0x0000000028440044, 0x0000000050880088, 0x00000000a0100010, 0x0000000040200020,
    0x0000000204000402, 0x0000000508000805, 0x0000000a1100110a, 0x0000001422002214,
    0x0000002844004428, 0x0000005088008850, 0x000000a0100010a0, 0x0000004020002040,
    0x0000020400040200, 0x0000050800080500, 0x00000a1100110a00, 0x0000142200221400,
    0x0000284400442800, 0x0000508800885000, 0x0000a0100010a000, 0x0000402000204000,
    0x0002040004020000, 0x0005080008050000, 0x000a1100110a0000, 0x0014220022140000,
    0x0028440044280000, 0x0050880088500000, 0x00a0100010a00000, 0x0040200020400000,
    0x0204000402000000, 0x0508000805000000, 0x0a1100110a000000, 0x1422002214000000,
    0x2844004428000000, 0x5088008850000000, 0xa0100010a0000000, 0x4020002040000000,
    0x0400040200000000, 0x0800080500000000, 0x1100110a00000000, 0x2200221400000000,
    0x4400442800000000, 0x8800885000000000, 0x100010a000000000, 0x2000204000000000,
    0x0004020000000000, 0x0008050000000000, 0x00110a0000000000, 0x0022140000000000,
    0x0044280000000000, 0x0088500000000000, 0x0010a00000000000, 0x0020400000000000]"

definition KingDest :: "TBB list" where
  "KingDest =
   [0x0000000000000302, 0x0000000000000705, 0x0000000000000e0a, 0x0000000000001c14,
    0x0000000000003828, 0x0000000000007050, 0x000000000000e0a0, 0x000000000000c040,
    0x0000000000030203, 0x0000000000070507, 0x00000000000e0a0e, 0x00000000001c141c,
    0x0000000000382838, 0x0000000000705070, 0x0000000000e0a0e0, 0x0000000000c040c0,
    0x0000000003020300, 0x0000000007050700, 0x000000000e0a0e00, 0x000000001c141c00,
    0x0000000038283800, 0x0000000070507000, 0x00000000e0a0e000, 0x00000000c040c000,
    0x0000000302030000, 0x0000000705070000, 0x0000000e0a0e0000, 0x0000001c141c0000,
    0x0000003828380000, 0x0000007050700000, 0x000000e0a0e00000, 0x000000c040c00000,
    0x0000030203000000, 0x0000070507000000, 0x00000e0a0e000000, 0x00001c141c000000,
    0x0000382838000000, 0x0000705070000000, 0x0000e0a0e0000000, 0x0000c040c0000000,
    0x0003020300000000, 0x0007050700000000, 0x000e0a0e00000000, 0x001c141c00000000,
    0x0038283800000000, 0x0070507000000000, 0x00e0a0e000000000, 0x00c040c000000000,
    0x0302030000000000, 0x0705070000000000, 0x0e0a0e0000000000, 0x1c141c0000000000,
    0x3828380000000000, 0x7050700000000000, 0xe0a0e00000000000, 0xc040c00000000000,
    0x0203000000000000, 0x0507000000000000, 0x0a0e000000000000, 0x141c000000000000,
    0x2838000000000000, 0x5070000000000000, 0xa0e0000000000000, 0x40c0000000000000]"

text \<open>
  The table \<open>EnPassant[8]\<close> of the source (masks used in move generation); the name
  \<open>EnPassant\<close> is the board's field here.
\<close>

definition EnPassantG :: "TBB list" where
  "EnPassantG =
   [0x0000000200000000, 0x0000000500000000, 0x0000000A00000000, 0x0000001400000000,
    0x0000002800000000, 0x0000005000000000, 0x000000A000000000, 0x0000004000000000]"

definition EnPassantM :: "TBB list" where
  "EnPassantM =
   [0x0000000002000000, 0x0000000005000000, 0x000000000A000000, 0x0000000014000000,
    0x0000000028000000, 0x0000000050000000, 0x00000000A0000000, 0x0000000040000000]"

section \<open>Bitboard primitives\<close>

text \<open>\<open>__builtin_bswap64\<close>: the eight bytes in reverse order.\<close>

definition RevBB :: "TBB \<Rightarrow> TBB" where
  "RevBB bb =
     push_bit 56 bb OR
     push_bit 40 (bb AND 0x000000000000FF00) OR
     push_bit 24 (bb AND 0x0000000000FF0000) OR
     push_bit 8 (bb AND 0x00000000FF000000) OR
     (drop_bit 8 bb AND 0x00000000FF000000) OR
     (drop_bit 24 bb AND 0x0000000000FF0000) OR
     (drop_bit 40 bb AND 0x000000000000FF00) OR
     drop_bit 56 bb"

text \<open>
  \<open>__builtin_ctzll\<close> and \<open>__builtin_clzll\<close> count the zero bits below the lowest and
  above the highest set bit.  Both are undefined at 0 in C; the model counts all 64 bits
  there.
\<close>

fun ctz :: "nat \<Rightarrow> TBB \<Rightarrow> nat" where
  "ctz 0 bb = 0"
| "ctz (Suc n) bb = (if bit bb 0 then 0 else Suc (ctz n (drop_bit 1 bb)))"

fun clz :: "nat \<Rightarrow> TBB \<Rightarrow> nat" where
  "clz 0 bb = 0"
| "clz (Suc n) bb = (if bit bb n then 0 else Suc (clz n bb))"

definition LSB :: "TBB \<Rightarrow> nat" where
  "LSB bb = ctz 64 bb"

definition MSB :: "TBB \<Rightarrow> nat" where
  "MSB bb = 0x3F XOR clz 64 bb"

definition ExtractLSB :: "TBB \<Rightarrow> TBB" where
  "ExtractLSB bb = bb AND (- bb)"

definition ClearLSB :: "TBB \<Rightarrow> TBB" where
  "ClearLSB bb = bb AND (bb - 1)"

section \<open>Reading a board\<close>

definition CastleSM :: "TBoard \<Rightarrow> 8 word" where "CastleSM b = CastleFlags b AND 0x02"
definition CastleLM :: "TBoard \<Rightarrow> 8 word" where "CastleLM b = CastleFlags b AND 0x01"
definition CastleSO :: "TBoard \<Rightarrow> 8 word" where "CastleSO b = CastleFlags b AND 0x20"
definition CastleLO :: "TBoard \<Rightarrow> 8 word" where "CastleLO b = CastleFlags b AND 0x10"

definition ResetCastleSM :: "TBoard \<Rightarrow> TBoard" where
  "ResetCastleSM b = b\<lparr>CastleFlags := CastleFlags b AND 0xFD\<rparr>"
definition ResetCastleLM :: "TBoard \<Rightarrow> TBoard" where
  "ResetCastleLM b = b\<lparr>CastleFlags := CastleFlags b AND 0xFE\<rparr>"
definition ResetCastleSO :: "TBoard \<Rightarrow> TBoard" where
  "ResetCastleSO b = b\<lparr>CastleFlags := CastleFlags b AND 0xDF\<rparr>"
definition ResetCastleLO :: "TBoard \<Rightarrow> TBoard" where
  "ResetCastleLO b = b\<lparr>CastleFlags := CastleFlags b AND 0xEF\<rparr>"

definition Occupation :: "TBoard \<Rightarrow> TBB" where
  "Occupation b = P0 b OR P1 b OR P2 b"
definition Pawns :: "TBoard \<Rightarrow> TBB" where
  "Pawns b = P0 b AND NOT (P1 b) AND NOT (P2 b)"
definition Knights :: "TBoard \<Rightarrow> TBB" where
  "Knights b = NOT (P0 b) AND P1 b AND NOT (P2 b)"
definition Bishops :: "TBoard \<Rightarrow> TBB" where
  "Bishops b = P0 b AND P1 b"
definition Rooks :: "TBoard \<Rightarrow> TBB" where
  "Rooks b = NOT (P0 b) AND NOT (P1 b) AND P2 b"
definition Queens :: "TBoard \<Rightarrow> TBB" where
  "Queens b = P0 b AND P2 b"
definition Kings :: "TBoard \<Rightarrow> TBB" where
  "Kings b = P1 b AND P2 b"

lemmas bb_defs = Occupation_def Pawns_def Knights_def Bishops_def Rooks_def Queens_def Kings_def

text \<open>
  The macro \<open>ChangeSide\<close>.  \<open>CastleFlags\<close> is a byte: the two shifted values are
  combined as \<open>int\<close> and stored back into eight bits.
\<close>

definition ChangeSide :: "TBoard \<Rightarrow> TBoard" where
  "ChangeSide b =
     (let b1 = b\<lparr>PM := PM b XOR Occupation b\<rparr>;
          b2 = b1\<lparr>PM := RevBB (PM b1)\<rparr>;
          b3 = b2\<lparr>P0 := RevBB (P0 b2)\<rparr>;
          b4 = b3\<lparr>P1 := RevBB (P1 b3)\<rparr>;
          b5 = b4\<lparr>P2 := RevBB (P2 b4)\<rparr>;
          b6 = b5\<lparr>CastleFlags := drop_bit 4 (CastleFlags b5) OR push_bit 4 (CastleFlags b5)\<rparr>
      in b6\<lparr>STM := STM b6 XOR BLACK\<rparr>)"

section \<open>Sliding-piece destinations\<close>

text \<open>
  \<open>sq\<close> is a square 0..63, so every shift count is below 64, as C requires.
\<close>

definition GenRook :: "nat \<Rightarrow> TBB \<Rightarrow> TBB" where
  "GenRook sq occupation0 =
     (let piece = push_bit sq (1 :: TBB);
          occupation = occupation0 XOR piece;
          piecesup = push_bit sq 0x0101010101010101 AND (occupation OR 0xFF00000000000000);
          piecesdo = drop_bit (63 - sq) 0x8080808080808080 AND (occupation OR 0x00000000000000FF);
          piecesri = push_bit sq 0x00000000000000FF AND (occupation OR 0x8080808080808080);
          piecesle = drop_bit (63 - sq) 0xFF00000000000000 AND (occupation OR 0x0101010101010101)
      in ((drop_bit (63 - LSB piecesup) 0x8080808080808080 AND
           push_bit (MSB piecesdo) 0x0101010101010101) OR
          (drop_bit (63 - LSB piecesri) 0xFF00000000000000 AND
           push_bit (MSB piecesle) 0x00000000000000FF)) XOR piece)"

definition GenBishop :: "nat \<Rightarrow> TBB \<Rightarrow> TBB" where
  "GenBishop sq occupation0 =
     (let piece = push_bit sq (1 :: TBB);
          occupation = occupation0 XOR piece;
          piecesup = push_bit sq 0x8040201008040201 AND (occupation OR 0xFF80808080808080);
          piecesdo = drop_bit (63 - sq) 0x8040201008040201 AND (occupation OR 0x01010101010101FF);
          piecesle = push_bit sq 0x8102040810204081 AND (occupation OR 0xFF01010101010101);
          piecesri = drop_bit (63 - sq) 0x8102040810204081 AND (occupation OR 0x80808080808080FF)
      in ((drop_bit (63 - LSB piecesup) 0x8040201008040201 AND
           push_bit (MSB piecesdo) 0x8040201008040201) OR
          (drop_bit (63 - LSB piecesle) 0x8102040810204081 AND
           push_bit (MSB piecesri) 0x8102040810204081)) XOR piece)"

text \<open>
  The two switches have no default: for any other piece type the C function falls off
  its end (undefined); the model returns 0.
\<close>

definition BBPieces :: "8 word \<Rightarrow> TBoard \<Rightarrow> TBB" where
  "BBPieces piece b =
     (if piece = PAWN then Pawns b
      else if piece = KNIGHT then Knights b
      else if piece = BISHOP then Bishops b
      else if piece = ROOK then Rooks b
      else if piece = QUEEN then Queens b
      else if piece = KING then Kings b
      else 0)"

definition BBDestinations :: "8 word \<Rightarrow> nat \<Rightarrow> TBB \<Rightarrow> TBB" where
  "BBDestinations piece sq occupation =
     (if piece = KNIGHT then tbl KnightDest sq
      else if piece = BISHOP then GenBishop sq occupation
      else if piece = ROOK then GenRook sq occupation
      else if piece = QUEEN then GenRook sq occupation OR GenBishop sq occupation
      else if piece = KING then tbl KingDest sq
      else 0)"

section \<open>The legality filter\<close>

definition Illegal :: "TMove \<Rightarrow> TBoard \<Rightarrow> TBB" where
  "Illegal move b =
     (let From' = push_bit (unat (From move)) (1 :: TBB);
          To' = push_bit (unat (To move)) (1 :: TBB);
          occupation = Occupation b;
          opposing = PM b XOR occupation;
          newoccupation0 = (occupation XOR From') OR To';
          newopposing0 = opposing AND NOT To';
          isking = (MoveType move AND 0x07 = KING);
          king = (if isking then To' else Kings b AND PM b);
          kingsq = (if isking then unat (To move) else LSB king);
          isep = (\<not> isking \<and> MoveType move AND EP \<noteq> 0);
          newopposing = (if isep then newopposing0 XOR drop_bit 8 To' else newopposing0);
          newoccupation = (if isep then newoccupation0 XOR drop_bit 8 To' else newoccupation0)
      in ((tbl KnightDest kingsq AND Knights b) OR
          (GenRook kingsq newoccupation AND (Rooks b OR Queens b)) OR
          (GenBishop kingsq newoccupation AND (Bishops b OR Queens b)) OR
          (((push_bit 9 king AND 0xFEFEFEFEFEFEFEFE) OR (push_bit 7 king AND 0x7F7F7F7F7F7F7F7F))
             AND Pawns b) OR
          (tbl KingDest kingsq AND Kings b)) AND newopposing)"

section \<open>Move generation\<close>

text \<open>
  The loop \<open>for (bb = ...; bb; bb = ClearLSB(bb)) { ... LSB(bb) ... }\<close> visits the set
  bits of a bitboard from the lowest up; \<open>squares\<close> is the list of the squares visited.
\<close>

function squares :: "TBB \<Rightarrow> nat list" where
  "squares bb = (if bb = 0 then [] else LSB bb # squares (ClearLSB bb))"
  by pat_completeness auto
termination
proof (relation "measure unat")
  show "wf (measure unat)" by simp
next
  fix bb :: TBB
  assume nz: "bb \<noteq> 0"
  have "bb AND (bb - 1) \<le> bb - 1" by (rule word_and_le1)
  moreover from nz have "bb - 1 < bb" by (simp add: word_less_nat_alt unat_minus_one unat_gt_0)
  ultimately have "bb AND (bb - 1) < bb" by simp
  then show "(ClearLSB bb, bb) \<in> measure unat"
    by (simp add: ClearLSB_def word_less_nat_alt)
qed

text \<open>
  Both generators write their moves one after the other into the caller's buffer and
  return the pointer behind the last one; the model returns the moves written, in that
  order.  The piece loop runs from \<open>KING\<close> down to \<open>KNIGHT\<close>.
\<close>

definition piece_order :: "8 word list" where
  "piece_order = [KING, QUEEN, ROOK, BISHOP, KNIGHT]"

definition long_castle_attackers :: "TBoard \<Rightarrow> TBB" where
  "long_castle_attackers b =
     (let occupation = Occupation b;
          opposing = occupation XOR PM b;
          roo = ExtractLSB (0x1010101010101000 AND occupation) OR
                ExtractLSB (0x0808080808080800 AND occupation) OR
                ExtractLSB (0x0404040404040400 AND occupation) OR
                ExtractLSB (0x00000000000000E0 AND occupation);
          bis = ExtractLSB (0x0000000102040800 AND occupation) OR
                ExtractLSB (0x0000000001020400 AND occupation) OR
                ExtractLSB (0x0000000000010200 AND occupation) OR
                ExtractLSB (0x0000000080402000 AND occupation) OR
                ExtractLSB (0x0000008040201000 AND occupation) OR
                ExtractLSB (0x0000804020100800 AND occupation)
      in ((roo AND (Rooks b OR Queens b)) OR (bis AND (Bishops b OR Queens b)) OR
          (0x00000000003E7700 AND Knights b) OR (0x0000000000003E00 AND Pawns b) OR
          (Kings b AND 0x0000000000000600)) AND opposing)"

definition short_castle_attackers :: "TBoard \<Rightarrow> TBB" where
  "short_castle_attackers b =
     (let occupation = Occupation b;
          opposing = occupation XOR PM b;
          roo = ExtractLSB (0x1010101010101000 AND occupation) OR
                ExtractLSB (0x2020202020202000 AND occupation) OR
                ExtractLSB (0x4040404040404000 AND occupation) OR
                push_bit (MSB (0x000000000000000F AND (occupation OR 0x1))) 1;
          bis = ExtractLSB (0x0000000102040800 AND occupation) OR
                ExtractLSB (0x0000010204081000 AND occupation) OR
                ExtractLSB (0x0001020408102000 AND occupation) OR
                ExtractLSB (0x0000000080402000 AND occupation) OR
                ExtractLSB (0x0000000000804000 AND occupation) OR
                0x0000000000008000
      in ((roo AND (Rooks b OR Queens b)) OR (bis AND (Bishops b OR Queens b)) OR
          (0x0000000000F8DC00 AND Knights b) OR (0x000000000000F800 AND Pawns b) OR
          (Kings b AND 0x0000000000004000)) AND opposing)"

definition GenerateQuiets :: "TBoard \<Rightarrow> TMove list" where
  "GenerateQuiets b =
     (let occupation = Occupation b;
          opposing = occupation XOR PM b;
          piece_moves =
            concat (map (\<lambda>piece.
              concat (map (\<lambda>sq.
                map (\<lambda>d. \<lparr>MoveType = piece, From = of_nat sq, To = of_nat d, Prom = EMPTY\<rparr>)
                    (squares (NOT occupation AND BBDestinations piece sq occupation)))
                (squares (BBPieces piece b AND PM b))))
              piece_order);
          push1 = (push_bit 8 (Pawns b AND PM b) AND NOT occupation) AND 0x00FFFFFFFFFFFFFF;
          push1_moves =
            map (\<lambda>t. \<lparr>MoveType = PAWN, From = of_nat t - 8, To = of_nat t, Prom = EMPTY\<rparr>)
                (squares push1);
          push2_moves =
            map (\<lambda>t. \<lparr>MoveType = PAWN, From = of_nat t - 16, To = of_nat t, Prom = EMPTY\<rparr>)
                (squares (push_bit 8 push1 AND NOT occupation AND 0x00000000FF000000));
          long_moves =
            (if CastleLM b \<noteq> 0 \<and> occupation AND 0x0E = 0 \<and> long_castle_attackers b = 0
             then [\<lparr>MoveType = KING OR CASTLE, From = 4, To = 2, Prom = EMPTY\<rparr>] else []);
          short_moves =
            (if CastleSM b \<noteq> 0 \<and> occupation AND 0x60 = 0 \<and> short_castle_attackers b = 0
             then [\<lparr>MoveType = KING OR CASTLE, From = 4, To = 6, Prom = EMPTY\<rparr>] else [])
      in piece_moves @ push1_moves @ push2_moves @ long_moves @ short_moves)"

text \<open>A promotion writes the queen promotion, then rook, bishop and knight.\<close>

definition promotions :: "8 word \<Rightarrow> 8 word \<Rightarrow> nat \<Rightarrow> TMove list" where
  "promotions mt back t =
     map (\<lambda>p. \<lparr>MoveType = mt, From = of_nat t - back, To = of_nat t, Prom = p\<rparr>)
         [QUEEN, ROOK, BISHOP, KNIGHT]"

definition GenerateCapture :: "TBoard \<Rightarrow> TMove list" where
  "GenerateCapture b =
     (let occupation = Occupation b;
          opposing = PM b XOR occupation;
          piece_moves =
            concat (map (\<lambda>piece.
              concat (map (\<lambda>sq.
                map (\<lambda>d. \<lparr>MoveType = piece OR CAPTURE, From = of_nat sq, To = of_nat d,
                           Prom = EMPTY\<rparr>)
                    (squares (opposing AND BBDestinations piece sq occupation)))
                (squares (BBPieces piece b AND PM b))))
              piece_order);
          pieces = Pawns b AND PM b;
          captureri_moves =
            map (\<lambda>t. \<lparr>MoveType = PAWN OR CAPTURE, From = of_nat t - 9, To = of_nat t,
                       Prom = EMPTY\<rparr>)
                (squares (push_bit 9 pieces AND 0x00FEFEFEFEFEFEFE AND opposing));
          capturele_moves =
            map (\<lambda>t. \<lparr>MoveType = PAWN OR CAPTURE, From = of_nat t - 7, To = of_nat t,
                       Prom = EMPTY\<rparr>)
                (squares (push_bit 7 pieces AND 0x007F7F7F7F7F7F7F AND opposing));
          promo_moves =
            (if pieces AND 0x00FF000000000000 \<noteq> 0 then
               concat (map (promotions (PAWN OR PROMO OR CAPTURE) 9)
                 (squares (push_bit 9 pieces AND 0xFE00000000000000 AND opposing))) @
               concat (map (promotions (PAWN OR PROMO OR CAPTURE) 7)
                 (squares (push_bit 7 pieces AND 0x7F00000000000000 AND opposing))) @
               concat (map (promotions (PAWN OR PROMO) 8)
                 (squares ((push_bit 8 pieces AND NOT occupation) AND 0xFF00000000000000)))
             else []);
          ep_moves =
            (if EnPassant b \<noteq> 8 then
               map (\<lambda>f. \<lparr>MoveType = PAWN OR EP OR CAPTURE, From = of_nat f,
                          To = 40 + EnPassant b, Prom = EMPTY\<rparr>)
                   (squares (pieces AND tbl EnPassantG (unat (EnPassant b))))
             else [])
      in piece_moves @ captureri_moves @ capturele_moves @ promo_moves @ ep_moves)"

section \<open>Make\<close>

text \<open>
  \<open>MakeBoard\<close> is everything \<open>Make\<close> does to \<open>*Position\<close> after the copy; a move type
  whose low three bits are 0 or 7 reaches \<open>default: break\<close> and leaves the copy as it is.
\<close>

definition delete_captured :: "TBB \<Rightarrow> TBoard \<Rightarrow> TBoard" where
  "delete_captured dest b =
     b\<lparr>P0 := P0 b AND NOT dest, P1 := P1 b AND NOT dest, P2 := P2 b AND NOT dest\<rparr>"

definition reset_captured_rook :: "TMove \<Rightarrow> TBoard \<Rightarrow> TBoard" where
  "reset_captured_rook move b =
     (if To move = 63 then ResetCastleSO b
      else if To move = 56 then ResetCastleLO b
      else b)"

definition MakePawn :: "TMove \<Rightarrow> TBoard \<Rightarrow> TBoard" where
  "MakePawn move b =
     (let part = push_bit (unat (From move)) (1 :: TBB);
          dest = push_bit (unat (To move)) (1 :: TBB)
      in if MoveType move AND EP \<noteq> 0 then
           (let b1 = b\<lparr>PM := PM b XOR (part OR dest)\<rparr>;
                b2 = b1\<lparr>P0 := P0 b1 XOR (part OR dest)\<rparr>;
                b3 = b2\<lparr>P0 := P0 b2 XOR drop_bit 8 dest\<rparr>
            in b3\<lparr>EnPassant := 8\<rparr>)
         else
           (let b1 = (if MoveType move AND CAPTURE \<noteq> 0 then delete_captured dest b else b);
                b2 = (if MoveType move AND PROMO \<noteq> 0 then
                        (let c1 = b1\<lparr>PM := PM b1 XOR (part OR dest)\<rparr>;
                             c2 = c1\<lparr>P0 := P0 c1 XOR part\<rparr>;
                             c3 = c2\<lparr>P0 := P0 c2 OR
                                    push_bit (unat (To move)) (ucast (Prom move AND 1))\<rparr>;
                             c4 = c3\<lparr>P1 := P1 c3 OR
                                    push_bit (unat (To move))
                                      (ucast (drop_bit 1 (Prom move) AND 1))\<rparr>;
                             c5 = c4\<lparr>P2 := P2 c4 OR
                                    push_bit (unat (To move)) (ucast (drop_bit 2 (Prom move)))\<rparr>
                         in c5\<lparr>EnPassant := 8\<rparr>)
                      else
                        (let c1 = b1\<lparr>PM := PM b1 XOR (part OR dest)\<rparr>;
                             c2 = c1\<lparr>P0 := P0 c1 XOR (part OR dest)\<rparr>;
                             c3 = c2\<lparr>EnPassant := 8\<rparr>
                         in if unat (To move) = unat (From move) + 16 \<and>
                               tbl EnPassantM (unat (To move AND 0x07)) AND Pawns c3 AND
                                 (PM c3 XOR Occupation c3) \<noteq> 0
                            then c3\<lparr>EnPassant := To move AND 0x07\<rparr> else c3))
            in if MoveType move AND CAPTURE \<noteq> 0 then reset_captured_rook move b2 else b2))"

definition MakePiece :: "TMove \<Rightarrow> TBoard \<Rightarrow> TBoard" where
  "MakePiece move b =
     (let part = push_bit (unat (From move)) (1 :: TBB);
          dest = push_bit (unat (To move)) (1 :: TBB);
          b1 = (if MoveType move AND CAPTURE \<noteq> 0 then delete_captured dest b else b);
          b2 = b1\<lparr>PM := PM b1 XOR (part OR dest)\<rparr>;
          b3 = b2\<lparr>P0 := P0 b2 XOR (if MoveType move AND 1 \<noteq> 0 then part OR dest else 0)\<rparr>;
          b4 = b3\<lparr>P1 := P1 b3 XOR (if MoveType move AND 2 \<noteq> 0 then part OR dest else 0)\<rparr>;
          b5 = b4\<lparr>P2 := P2 b4 XOR (if MoveType move AND 4 \<noteq> 0 then part OR dest else 0)\<rparr>;
          b6 = b5\<lparr>EnPassant := 8\<rparr>;
          b7 = (if MoveType move AND 0x7 = ROOK then
                  (if From move = 7 then ResetCastleSM b6
                   else if From move = 0 then ResetCastleLM b6
                   else b6)
                else b6)
      in if MoveType move AND CAPTURE \<noteq> 0 then reset_captured_rook move b7 else b7)"

definition MakeKing :: "TMove \<Rightarrow> TBoard \<Rightarrow> TBoard" where
  "MakeKing move b =
     (let part = push_bit (unat (From move)) (1 :: TBB);
          dest = push_bit (unat (To move)) (1 :: TBB);
          b1 = (if MoveType move AND CAPTURE \<noteq> 0 then delete_captured dest b else b);
          b2 = b1\<lparr>PM := PM b1 XOR (part OR dest)\<rparr>;
          b3 = b2\<lparr>P1 := P1 b2 XOR (part OR dest)\<rparr>;
          b4 = b3\<lparr>P2 := P2 b3 XOR (part OR dest)\<rparr>;
          b5 = ResetCastleLM (ResetCastleSM b4);
          b6 = b5\<lparr>EnPassant := 8\<rparr>
      in if MoveType move AND CAPTURE \<noteq> 0 then
           (if CastleSO b6 \<noteq> 0 \<and> To move = 63 then ResetCastleSO b6
            else if CastleLO b6 \<noteq> 0 \<and> To move = 56 then ResetCastleLO b6
            else b6)
         else if MoveType move AND CASTLE \<noteq> 0 then
           (if To move = 6
            then b6\<lparr>PM := PM b6 XOR 0x00000000000000A0, P2 := P2 b6 XOR 0x00000000000000A0\<rparr>
            else b6\<lparr>P2 := P2 b6 XOR 0x0000000000000009, PM := PM b6 XOR 0x0000000000000009\<rparr>)
         else b6)"

definition MakeBoard :: "TMove \<Rightarrow> TBoard \<Rightarrow> TBoard" where
  "MakeBoard move b =
     (let t = MoveType move AND 0x07
      in if t = PAWN then ChangeSide (MakePawn move b)
         else if t = KNIGHT \<or> t = BISHOP \<or> t = ROOK \<or> t = QUEEN then ChangeSide (MakePiece move b)
         else if t = KING then ChangeSide (MakeKing move b)
         else b)"

text \<open>
  \<open>Make\<close> advances \<open>Position\<close>, copies the previous entry into the new one and changes
  the new one.  Behind the last entry of \<open>Game\<close> the C code writes outside the array;
  the model returns \<open>None\<close> there.
\<close>

definition Make :: "TMove \<Rightarrow> TState \<Rightarrow> TState option" where
  "Make move s =
     (if Position s + 1 < MAX_PLY then
        (let s1 = s\<lparr>Position := Position s + 1\<rparr>;
             s2 = s1\<lparr>Game := (Game s1)[Position s1 := Game s1 ! (Position s1 - 1)]\<rparr>
         in Some (s2\<lparr>Game := (Game s2)[Position s2 := MakeBoard move (Game s2 ! Position s2)]\<rparr>))
      else None)"

section \<open>Perft\<close>

text \<open>
  The two loops of \<open>Perft\<close> walk their buffer from the last move written down to the
  first; \<open>perft_moves\<close> is one such loop over the moves still to visit.  A generator
  that writes more moves than its buffer holds (64 captures, 256 quiets) writes outside
  the buffer; the model returns \<open>None\<close> there, as it does when \<open>Make\<close> leaves the
  array \<open>Game\<close>.  The counter \<open>tot\<close> is an unbounded integer in the model.
\<close>

function Perft :: "int \<Rightarrow> TState \<Rightarrow> (int \<times> TState) option"
  and perft_moves :: "int \<Rightarrow> TMove list \<Rightarrow> int \<Rightarrow> TState \<Rightarrow> (int \<times> TState) option"
where
  "Perft depth s =
     (let capture = GenerateCapture (cur s)
      in if length capture > 64 then None
         else case perft_moves depth (rev capture) 0 s of
                None \<Rightarrow> None
              | Some (tot, s1) \<Rightarrow>
                  (let quiets = GenerateQuiets (cur s1)
                   in if length quiets > 256 then None
                      else perft_moves depth (rev quiets) tot s1))"
| "perft_moves depth [] tot s = Some (tot, s)"
| "perft_moves depth (move # rest) tot s =
     (if Illegal move (cur s) \<noteq> 0 then perft_moves depth rest tot s
      else if depth > 1 then
        (case Make move s of
           None \<Rightarrow> None
         | Some s1 \<Rightarrow>
             (case Perft (depth - 1) s1 of
                None \<Rightarrow> None
              | Some (n, s2) \<Rightarrow>
                  perft_moves depth rest (tot + n) (s2\<lparr>Position := Position s2 - 1\<rparr>)))
      else perft_moves depth rest (tot + 1) s)"
  by pat_completeness auto
termination
  by (relation "(\<lambda>x. case x of Inl (d, s) \<Rightarrow> nat d | Inr (d, ms, t, s) \<Rightarrow> nat d)
                  <*mlex*> (\<lambda>x. case x of Inl (d, s) \<Rightarrow> Suc 0 | Inr (d, ms, t, s) \<Rightarrow> 0)
                  <*mlex*> measure (\<lambda>x. case x of Inl (d, s) \<Rightarrow> 0 | Inr (d, ms, t, s) \<Rightarrow> length ms)")
     (auto simp: wf_mlex mlex_less mlex_leq)

section \<open>Well-formed boards\<close>

text \<open>
  The encoding invariants of a board: the mover's pieces are occupied squares, no square
  carries the unused code 7, each side has exactly one king, no pawn stands on the first
  or last rank, only the four castling bits are used and a castling right implies king
  and rook on their home squares, the en-passant field is a file or 8 and a file implies
  an opposing pawn that has just advanced two squares, and the side to move is 0 or 8.
\<close>

definition single_bit :: "TBB \<Rightarrow> bool" where
  "single_bit x \<longleftrightarrow> x \<noteq> 0 \<and> x AND (x - 1) = 0"

definition wf_board :: "TBoard \<Rightarrow> bool" where
  "wf_board b \<longleftrightarrow>
     PM b AND NOT (Occupation b) = 0 \<and>
     P0 b AND P1 b AND P2 b = 0 \<and>
     single_bit (Kings b AND PM b) \<and>
     single_bit (Kings b AND NOT (PM b)) \<and>
     Pawns b AND 0xFF000000000000FF = 0 \<and>
     CastleFlags b AND 0xCC = 0 \<and>
     (CastleSM b \<noteq> 0 \<longrightarrow> bit (Kings b AND PM b) 4 \<and> bit (Rooks b AND PM b) 7) \<and>
     (CastleLM b \<noteq> 0 \<longrightarrow> bit (Kings b AND PM b) 4 \<and> bit (Rooks b AND PM b) 0) \<and>
     (CastleSO b \<noteq> 0 \<longrightarrow>
        bit (Kings b AND NOT (PM b)) 60 \<and> bit (Rooks b AND NOT (PM b)) 63) \<and>
     (CastleLO b \<noteq> 0 \<longrightarrow>
        bit (Kings b AND NOT (PM b)) 60 \<and> bit (Rooks b AND NOT (PM b)) 56) \<and>
     EnPassant b \<le> 8 \<and>
     (EnPassant b \<noteq> 8 \<longrightarrow>
        bit (Pawns b AND NOT (PM b)) (32 + unat (EnPassant b)) \<and>
        \<not> bit (Occupation b) (40 + unat (EnPassant b)) \<and>
        \<not> bit (Occupation b) (48 + unat (EnPassant b))) \<and>
     (STM b = WHITE \<or> STM b = BLACK)"

section \<open>Concrete positions\<close>

text \<open>
  The start position \<open>rnbqkbnr/pppppppp/8/8/8/8/PPPPPPPP/RNBQKBNR w KQkq - 0 1\<close>, as
  \<open>LoadPosition\<close> leaves it in \<open>Game[0]\<close>.
\<close>

definition start_board :: TBoard where
  "start_board =
     \<lparr>PM = 0x000000000000FFFF, P0 = 0x2CFF00000000FF2C, P1 = 0x7600000000000076,
      P2 = 0x9900000000000099, CastleFlags = 0x33, EnPassant = 8, STM = 0\<rparr>"

definition start_state :: TState where
  "start_state = \<lparr>Game = replicate 32 start_board, Position = 0\<rparr>"

text \<open>
  \<open>8/8/8/8/k2p3R/8/4P3/4K3 w - - 0 1\<close>: after e2-e4 the black pawn on d4 stands beside
  the pushed pawn, but capturing en passant would open the fourth rank between the rook
  on h4 and the black king on a4.
\<close>

definition pinned_ep_board :: TBoard where
  "pinned_ep_board =
     \<lparr>PM = 0x0000000080001010, P0 = 0x0000000008001000, P1 = 0x0000000001000010,
      P2 = 0x0000000081000010, CastleFlags = 0, EnPassant = 8, STM = 0\<rparr>"

text \<open>
  \<open>1nbqrbn1/PPPPPPPP/2N2N2/6k1/R2r3R/4K3/1B6/3Q1B2 w - - 0 1\<close>: White has all sixteen
  men, Black has lost the eight pawns, and the black king on g5 is not attacked.
\<close>

definition crowded_board :: TBoard where
  "crowded_board =
     \<lparr>PM = 0x00FF240081100228, P0 = 0x2CFF000000000228, P1 = 0x6600244000100220,
      P2 = 0x1800004089100008, CastleFlags = 0, EnPassant = 8, STM = 0\<rparr>"

section \<open>Functions on binary numerals used to evaluate LSB and MSB\<close>

text \<open>
  \<open>tzn\<close> counts the trailing zero digits of a binary numeral and \<open>lenn\<close> the digits
  after the leading one; \<open>ctz_num\<close> and \<open>len_num\<close> compute the same with an accumulator
  that stays a numeral.
\<close>

fun tzn :: "num \<Rightarrow> nat" where
  "tzn Num.One = 0"
| "tzn (Num.Bit1 k) = 0"
| "tzn (Num.Bit0 k) = Suc (tzn k)"

fun lenn :: "num \<Rightarrow> nat" where
  "lenn Num.One = 0"
| "lenn (Num.Bit0 k) = Suc (lenn k)"
| "lenn (Num.Bit1 k) = Suc (lenn k)"

fun ctz_num :: "num \<Rightarrow> num \<Rightarrow> num" where
  "ctz_num a Num.One = a"
| "ctz_num a (Num.Bit1 k) = a"
| "ctz_num a (Num.Bit0 k) = ctz_num (Num.inc a) k"

fun len_num :: "num \<Rightarrow> num \<Rightarrow> num" where
  "len_num a Num.One = a"
| "len_num a (Num.Bit0 k) = len_num (Num.inc a) k"
| "len_num a (Num.Bit1 k) = len_num (Num.inc a) k"

section \<open>Properties\<close>

declare squares.simps [simp del] Perft.simps [simp del] perft_moves.simps [simp del]

subsection \<open>What LSB and MSB return\<close>

lemma ctz_le: "ctz n bb \<le> n"
  by (induction n arbitrary: bb) auto

lemma ctz_bit: "ctz n bb < n \<Longrightarrow> bit bb (ctz n bb)"
proof (induction n arbitrary: bb)
  case 0
  then show ?case by simp
next
  case (Suc n)
  show ?case
  proof (cases "bit bb 0")
    case True
    then show ?thesis by simp
  next
    case False
    with Suc.prems have "ctz n (drop_bit 1 bb) < n" by simp
    then have "bit (drop_bit 1 bb) (ctz n (drop_bit 1 bb))" by (rule Suc.IH)
    with False show ?thesis by (simp add: bit_drop_bit_eq)
  qed
qed

lemma ctz_below: "m < ctz n bb \<Longrightarrow> \<not> bit bb m"
proof (induction n arbitrary: bb m)
  case 0
  then show ?case by simp
next
  case (Suc n)
  show ?case
  proof (cases "bit bb 0")
    case True
    with Suc.prems show ?thesis by simp
  next
    case False
    show ?thesis
    proof (cases m)
      case 0
      with False show ?thesis by simp
    next
      case (Suc m')
      with Suc.prems False have "m' < ctz n (drop_bit 1 bb)" by simp
      then have "\<not> bit (drop_bit 1 bb) m'" by (rule Suc.IH)
      with Suc show ?thesis by (simp add: bit_drop_bit_eq)
    qed
  qed
qed

lemma clz_le: "clz n bb \<le> n"
  by (induction n) auto

lemma clz_bit: "clz n bb < n \<Longrightarrow> bit bb (n - 1 - clz n bb)"
  by (induction n) (auto split: if_splits)

lemma clz_above: "n - clz n bb \<le> m \<Longrightarrow> m < n \<Longrightarrow> \<not> bit bb m"
proof (induction n)
  case 0
  then show ?case by simp
next
  case (Suc n)
  show ?case
  proof (cases "bit bb n")
    case True
    with Suc.prems show ?thesis by simp
  next
    case False
    show ?thesis
    proof (cases "m = n")
      case True
      with False show ?thesis by simp
    next
      case neq: False
      with Suc.prems False have "n - clz n bb \<le> m" "m < n" by auto
      then show ?thesis by (rule Suc.IH)
    qed
  qed
qed

lemma word64_nonzero_bit: "(bb :: TBB) \<noteq> 0 \<Longrightarrow> \<exists>n<64. bit bb n"
proof (rule ccontr)
  assume nz: "bb \<noteq> 0" and "\<not> (\<exists>n<64. bit bb n)"
  then have "\<And>n. n < LENGTH(64) \<Longrightarrow> bit bb n = bit (0 :: TBB) n" by simp
  then have "bb = 0" by (rule bit_word_eqI)
  with nz show False by simp
qed

lemma LSB_less: "bb \<noteq> 0 \<Longrightarrow> LSB bb < 64"
proof (rule ccontr)
  assume nz: "bb \<noteq> 0" and "\<not> LSB bb < 64"
  then have "\<And>m. m < 64 \<Longrightarrow> \<not> bit bb m"
    using ctz_below [of _ 64 bb] by (simp add: LSB_def)
  with word64_nonzero_bit [OF nz] show False by blast
qed

lemma LSB_bit: "bb \<noteq> 0 \<Longrightarrow> bit bb (LSB bb)"
  using LSB_less [of bb] ctz_bit [of 64 bb] by (simp add: LSB_def)

lemma LSB_below: "m < LSB bb \<Longrightarrow> \<not> bit bb m"
  using ctz_below [of m 64 bb] by (simp add: LSB_def)

lemma LSB_eqI: "bit bb n \<Longrightarrow> (\<And>m. m < n \<Longrightarrow> \<not> bit bb m) \<Longrightarrow> LSB bb = n"
proof -
  assume b: "bit bb n" and l: "\<And>m. m < n \<Longrightarrow> \<not> bit bb m"
  from b have nz: "bb \<noteq> 0" by auto
  have "\<not> LSB bb < n" using l LSB_bit [OF nz] by blast
  moreover have "\<not> n < LSB bb" using b LSB_below by blast
  ultimately show ?thesis by simp
qed

lemma xor_63: "c < 64 \<Longrightarrow> (63 :: nat) XOR c = 63 - c"
proof -
  have "\<forall>c \<in> set [0..<64]. (63 :: nat) XOR c = 63 - c" by code_simp
  then show "c < 64 \<Longrightarrow> (63 :: nat) XOR c = 63 - c" by simp
qed

lemma clz_less: "bb \<noteq> 0 \<Longrightarrow> clz 64 bb < 64"
proof (rule ccontr)
  assume nz: "bb \<noteq> 0" and "\<not> clz 64 bb < 64"
  with clz_le [of 64 bb] have "clz 64 bb = 64" by simp
  then have "\<And>m. m < 64 \<Longrightarrow> \<not> bit bb m"
    using clz_above [of 64 bb] by simp
  with word64_nonzero_bit [OF nz] show False by blast
qed

lemma MSB_eq: "bb \<noteq> 0 \<Longrightarrow> MSB bb = 63 - clz 64 bb"
  using clz_less [of bb] by (simp add: MSB_def xor_63)

lemma MSB_less: "bb \<noteq> 0 \<Longrightarrow> MSB bb < 64"
  by (simp add: MSB_eq)

lemma MSB_bit: "bb \<noteq> 0 \<Longrightarrow> bit bb (MSB bb)"
  using clz_less [of bb] clz_bit [of 64 bb] by (simp add: MSB_eq)

lemma MSB_above: "bb \<noteq> 0 \<Longrightarrow> MSB bb < m \<Longrightarrow> \<not> bit bb m"
proof (cases "m < 64")
  case True
  assume "bb \<noteq> 0" "MSB bb < m"
  with True clz_less [of bb] have "64 - clz 64 bb \<le> m" by (simp add: MSB_eq)
  then show ?thesis using True by (rule clz_above)
next
  case False
  then show ?thesis by (auto dest: bit_imp_le_length)
qed

lemma MSB_eqI: "bit bb n \<Longrightarrow> (\<And>m. n < m \<Longrightarrow> \<not> bit bb m) \<Longrightarrow> MSB bb = n"
proof -
  assume b: "bit bb n" and l: "\<And>m. n < m \<Longrightarrow> \<not> bit bb m"
  from b have nz: "bb \<noteq> 0" by auto
  have "\<not> n < MSB bb" using l MSB_bit [OF nz] by blast
  moreover have "\<not> MSB bb < n" using b MSB_above [OF nz] by blast
  ultimately show ?thesis by simp
qed


subsection \<open>Evaluation on numerals\<close>

lemma ctz_num_tzn: "pred_numeral (ctz_num a k) = pred_numeral a + tzn k"
  by (induction k arbitrary: a) simp_all

lemma len_num_lenn: "pred_numeral (len_num a k) = pred_numeral a + lenn k"
  by (induction k arbitrary: a) simp_all

lemma tzn_bit: "bit (numeral k :: int) (tzn k)"
  by (induction k) simp_all

lemma tzn_below: "m < tzn k \<Longrightarrow> \<not> bit (numeral k :: int) m"
proof (induction k arbitrary: m)
  case (Bit0 k)
  then show ?case by (cases m) simp_all
qed simp_all

lemma lenn_bit: "bit (numeral k :: int) (lenn k)"
  by (induction k) simp_all

lemma lenn_above: "lenn k < m \<Longrightarrow> \<not> bit (numeral k :: int) m"
proof (induction k arbitrary: m)
  case One
  then show ?case by (cases m) (simp_all add: bit_Suc)
next
  case (Bit0 k)
  then show ?case by (cases m) simp_all
next
  case (Bit1 k)
  then show ?case by (cases m) simp_all
qed

lemma lenn_bound: "(numeral k :: nat) < 2 ^ n \<Longrightarrow> lenn k < n"
proof (induction k arbitrary: n)
  case One
  then show ?case by (cases n) simp_all
next
  case (Bit0 k)
  show ?case
  proof (cases n)
    case 0
    with Bit0.prems show ?thesis by simp
  next
    case (Suc n')
    from Bit0.prems have "2 * numeral k < (2 :: nat) ^ n" by (metis mult_2 numeral_Bit0)
    then have "2 * numeral k < 2 * (2 :: nat) ^ n'" by (simp only: Suc power_Suc)
    then have "(numeral k :: nat) < 2 ^ n'" by linarith
    then have "lenn k < n'" by (rule Bit0.IH)
    with Suc show ?thesis by simp
  qed
next
  case (Bit1 k)
  show ?case
  proof (cases n)
    case 0
    with Bit1.prems show ?thesis by simp
  next
    case (Suc n')
    from Bit1.prems have "2 * numeral k + 1 < (2 :: nat) ^ n" by (metis mult_2 numeral_Bit1)
    then have "2 * numeral k + 1 < 2 * (2 :: nat) ^ n'" by (simp only: Suc power_Suc)
    then have "(numeral k :: nat) < 2 ^ n'" by linarith
    then have "lenn k < n'" by (rule Bit1.IH)
    with Suc show ?thesis by simp
  qed
qed

lemma ctz_zero: "ctz n 0 = n"
  by (induction n) simp_all

lemma LSB_0: "LSB 0 = 64"
  by (simp add: LSB_def ctz_zero)

lemma LSB_1: "LSB 1 = 0"
  by (rule LSB_eqI) simp_all

lemma MSB_1: "MSB 1 = 0"
  by (rule MSB_eqI) (simp_all add: bit_1_iff)

lemma LSB_numeral: "LSB (numeral k :: TBB) = min 64 (pred_numeral (ctz_num Num.One k))"
proof (cases "tzn k < 64")
  case True
  have "LSB (numeral k :: TBB) = tzn k"
  proof (rule LSB_eqI)
    show "bit (numeral k :: TBB) (tzn k)" using True tzn_bit by simp
    show "\<And>m. m < tzn k \<Longrightarrow> \<not> bit (numeral k :: TBB) m" using tzn_below by simp
  qed
  with True show ?thesis by (simp add: ctz_num_tzn)
next
  case False
  have "numeral k = (0 :: TBB)"
  proof (rule bit_word_eqI)
    fix n assume "n < LENGTH(64)"
    with False have "n < tzn k" by simp
    then show "bit (numeral k :: TBB) n = bit (0 :: TBB) n" using tzn_below by simp
  qed
  then have "LSB (numeral k :: TBB) = 64" by (simp only: LSB_0)
  with False show ?thesis by (simp only: ctz_num_tzn)
qed

lemma MSB_numeral:
  "(numeral k :: nat) < 18446744073709551616 \<Longrightarrow>
   MSB (numeral k :: TBB) = pred_numeral (len_num Num.One k)"
proof -
  assume "(numeral k :: nat) < 18446744073709551616"
  then have l: "lenn k < 64" using lenn_bound [of k 64] by simp
  have "MSB (numeral k :: TBB) = lenn k"
  proof (rule MSB_eqI)
    show "bit (numeral k :: TBB) (lenn k)" using l lenn_bit by simp
    show "\<And>m. lenn k < m \<Longrightarrow> \<not> bit (numeral k :: TBB) m" using lenn_above by simp
  qed
  then show ?thesis by (simp add: len_num_lenn)
qed

lemma numeral_nonzero:
  "(numeral k :: nat) < 18446744073709551616 \<Longrightarrow> (numeral k = (0 :: TBB)) = False"
proof -
  assume "(numeral k :: nat) < 18446744073709551616"
  then have l: "lenn k < 64" using lenn_bound [of k 64] by simp
  then have b: "bit (numeral k :: TBB) (lenn k)" using lenn_bit by simp
  have "numeral k \<noteq> (0 :: TBB)"
  proof
    assume "numeral k = (0 :: TBB)"
    with b have "bit (0 :: TBB) (lenn k)" by (simp only:)
    then show False by simp
  qed
  then show ?thesis by (simp only: simp_thms)
qed

lemma squares_0: "squares 0 = []"
  by (simp add: squares.simps)

lemma squares_numeral:
  "squares (numeral k) =
     (if numeral k = (0 :: TBB) then [] else LSB (numeral k) # squares (ClearLSB (numeral k)))"
  by (rule squares.simps)

lemma squares_1: "squares 1 = [0]"
  by (simp add: squares.simps [of 1] LSB_1 ClearLSB_def squares_0)

lemma push_bit_numeral_TBB:
  "push_bit n (numeral k :: TBB) = (numeral k * 2 ^ n) AND 0xFFFFFFFFFFFFFFFF"
proof -
  have "(0xFFFFFFFFFFFFFFFF :: TBB) = - 1" by simp
  then show ?thesis by (simp only: push_bit_eq_mult and.right_neutral)
qed

lemma push_bit_1_TBB:
  "push_bit n (1 :: TBB) = (2 ^ n) AND 0xFFFFFFFFFFFFFFFF"
proof -
  have "(0xFFFFFFFFFFFFFFFF :: TBB) = - 1" by simp
  then show ?thesis by (simp only: push_bit_eq_mult and.right_neutral mult_1)
qed

lemma push_bit_numeral_byte:
  "push_bit n (numeral k :: 8 word) = (numeral k * 2 ^ n) AND 0xFF"
proof -
  have "(0xFF :: 8 word) = - 1" by simp
  then show ?thesis by (simp only: push_bit_eq_mult and.right_neutral)
qed

lemma map_weak_cong: "xs = ys \<Longrightarrow> map f xs = map f ys"
  by simp

lemma Let_word: "Let (b :: 'a :: len word) f = f b" by simp
lemma Let_board: "Let (b :: TBoard) f = f b" by simp
lemma Let_list: "Let (b :: 'a list) f = f b" by simp
lemma Let_bool: "Let (b :: bool) f = f b" by simp
lemma Let_nat: "Let (b :: nat) f = f b" by simp
lemma Let_state: "Let (b :: TState) f = f b" by simp

lemmas prim_eval = push_bit_numeral_TBB push_bit_1_TBB push_bit_numeral_byte Let_word LSB_0 LSB_1 LSB_numeral MSB_1 MSB_numeral numeral_nonzero squares_0 squares_1 squares_numeral
  ExtractLSB_def ClearLSB_def tbl_def KnightDest_def KingDest_def EnPassantG_def EnPassantM_def RevBB_def
  Let_nat Let_bool
lemmas board_eval = bb_defs CastleSM_def CastleLM_def CastleSO_def CastleLO_def ResetCastleSM_def
  ResetCastleLM_def ResetCastleSO_def ResetCastleLO_def ChangeSide_def piece_defs flag_defs WHITE_def
  BLACK_def Let_board Let_list Let_state
lemmas gen_eval = GenRook_def GenBishop_def BBPieces_def BBDestinations_def Illegal_def piece_order_def
  long_castle_attackers_def short_castle_attackers_def GenerateQuiets_def GenerateCapture_def
  promotions_def
lemmas make_eval = delete_captured_def reset_captured_rook_def MakePawn_def MakePiece_def MakeKing_def
  MakeBoard_def Make_def cur_def
lemmas perft_eval = Perft.simps perft_moves.simps

lemma all_below_numeral:
  "(\<forall>n<numeral k. P n) \<longleftrightarrow> P (pred_numeral k) \<and> (\<forall>n<pred_numeral k. P n)"
  by (auto simp: numeral_eq_Suc less_Suc_eq)

lemma all_below_1: "(\<forall>n<(1::nat). P n) \<longleftrightarrow> P 0"
  by simp

lemma all_below_Suc0: "(\<forall>n<Suc 0. P n) \<longleftrightarrow> P 0"
  by simp

lemmas enum = all_below_numeral all_below_1 all_below_Suc0

lemma bit_TBB_high: "64 \<le> n \<Longrightarrow> bit (x :: TBB) n = False"
  by (auto dest: bit_imp_le_length)

lemma bit_byte_high: "8 \<le> n \<Longrightarrow> bit (x :: 8 word) n = False"
  by (auto dest: bit_imp_le_length)

lemma Suc_Suc_0: "Suc (Suc 0) = 2"
  by simp

lemma bit_RevBB_below: "\<forall>n<64. bit (RevBB x) n = bit x (8 * (7 - n div 8) + n mod 8)"
  by (simp add: enum RevBB_def bit_or_iff bit_and_iff bit_push_bit_iff bit_drop_bit_eq bit_TBB_high Suc_Suc_0)

lemma bit_RevBB: "bit (RevBB x) n \<longleftrightarrow> n < 64 \<and> bit x (8 * (7 - n div 8) + n mod 8)"
proof (cases "n < 64")
  case True
  then show ?thesis using bit_RevBB_below by simp
next
  case False
  then show ?thesis by (auto dest: bit_imp_le_length)
qed

lemma RevBB_RevBB: "RevBB (RevBB x) = x"
proof (rule bit_word_eqI)
  fix n assume "n < LENGTH(64)"
  then have n: "n < 64" by simp
  have "\<forall>n<64. 8 * (7 - n div 8) + n mod 8 < (64 :: nat) \<and>
    8 * (7 - (8 * (7 - n div 8) + n mod 8) div 8) + (8 * (7 - n div 8) + n mod 8) mod 8 = n"
    by (simp add: enum)
  with n have "8 * (7 - n div 8) + n mod 8 < 64"
    "8 * (7 - (8 * (7 - n div 8) + n mod 8) div 8) + (8 * (7 - n div 8) + n mod 8) mod 8 = n"
    by blast+
  then show "bit (RevBB (RevBB x)) n = bit x n" using n by (simp add: bit_RevBB)
qed

lemma RevBB_xor: "RevBB (x XOR y) = RevBB x XOR RevBB y"
  by (rule bit_word_eqI) (simp add: bit_RevBB bit_xor_iff)

lemma RevBB_or: "RevBB (x OR y) = RevBB x OR RevBB y"
  by (rule bit_word_eqI) (auto simp add: bit_RevBB bit_or_iff)

lemma RevBB_and: "RevBB (x AND y) = RevBB x AND RevBB y"
  by (rule bit_word_eqI) (auto simp add: bit_RevBB bit_and_iff)

lemma roll_roll: "drop_bit 4 (drop_bit 4 c OR push_bit 4 c) OR push_bit 4 (drop_bit 4 c OR push_bit 4 c) = (c :: 8 word)"
proof (rule bit_word_eqI)
  fix n assume "n < LENGTH(8)"
  then have n: "n < 8" by simp
  have "\<forall>n<8. bit (drop_bit 4 (drop_bit 4 c OR push_bit 4 c) OR
                  push_bit 4 (drop_bit 4 c OR push_bit 4 c)) n = bit c n"
    by (simp add: enum bit_or_iff bit_push_bit_iff bit_drop_bit_eq bit_byte_high Suc_Suc_0)
  with n show "bit (drop_bit 4 (drop_bit 4 c OR push_bit 4 c) OR
                  push_bit 4 (drop_bit 4 c OR push_bit 4 c)) n = bit c n" by blast
qed

lemma roll_roll2: "drop_bit 4 (push_bit 4 c) OR push_bit 4 (drop_bit 4 c) = (c :: 8 word)"
proof (rule bit_word_eqI)
  fix n assume "n < LENGTH(8)"
  then have n: "n < 8" by simp
  have "\<forall>n<8. bit (drop_bit 4 (push_bit 4 c) OR push_bit 4 (drop_bit 4 c)) n = bit c n"
    by (simp add: enum bit_or_iff bit_push_bit_iff bit_drop_bit_eq bit_byte_high Suc_Suc_0)
  with n show "bit (drop_bit 4 (push_bit 4 c) OR push_bit 4 (drop_bit 4 c)) n = bit c n" by blast
qed

lemma Occupation_ChangeSide: "Occupation (ChangeSide b) = RevBB (Occupation b)"
  by (simp add: ChangeSide_def Occupation_def Let_def RevBB_or)

text \<open>
  C8: the side-to-move flip is an involution: applying \<open>ChangeSide\<close> twice gives back
  every field of the board.
\<close>

theorem ChangeSide_involution: "ChangeSide (ChangeSide b) = b"
proof -
  have pm: "RevBB (RevBB (PM b XOR Occupation b) XOR RevBB (Occupation b)) = PM b"
    by (simp add: RevBB_xor RevBB_RevBB bit.xor_left_self xor.assoc)
  have "PM (ChangeSide (ChangeSide b)) = PM b"
    using pm by (simp add: ChangeSide_def Let_def Occupation_def RevBB_or)
  moreover have "P0 (ChangeSide (ChangeSide b)) = P0 b" "P1 (ChangeSide (ChangeSide b)) = P1 b"
    "P2 (ChangeSide (ChangeSide b)) = P2 b"
    by (simp_all add: ChangeSide_def Let_def RevBB_RevBB)
  moreover have "CastleFlags (ChangeSide (ChangeSide b)) = CastleFlags b"
    by (simp add: ChangeSide_def Let_def roll_roll roll_roll2)
  moreover have "EnPassant (ChangeSide (ChangeSide b)) = EnPassant b"
    by (simp add: ChangeSide_def Let_def)
  moreover have "STM (ChangeSide (ChangeSide b)) = STM b"
    by (simp add: ChangeSide_def Let_def BLACK_def xor.assoc)
  moreover have "TBoard.more (ChangeSide (ChangeSide b)) = TBoard.more b"
    by (simp add: ChangeSide_def Let_def)
  ultimately show ?thesis by (simp add: TBoard.equality)
qed

lemma perft_moves_leaf:
  "depth \<le> 1 \<Longrightarrow>
   perft_moves depth ms tot s =
     Some (tot + int (length (filter (\<lambda>m. Illegal m (cur s) = 0) ms)), s)"
  by (induction ms arbitrary: tot) (simp_all add: perft_moves.simps)

text \<open>
  C6 (as amended): at depth 0 \<open>Perft\<close> has no base case that returns the constant 1.
  It returns exactly what it returns at depth 1: the number of generated capture and
  quiet moves that pass the legality filter (or \<open>None\<close> when a generator writes more
  moves than its buffer holds), and it leaves the stack as it was.
\<close>

theorem Perft_0:
  "Perft 0 s = Perft 1 s \<and>
   Perft 0 s =
     (if 64 < length (GenerateCapture (cur s)) \<or> 256 < length (GenerateQuiets (cur s)) then None
      else Some (int (length (filter (\<lambda>m. Illegal m (cur s) = 0)
                   (GenerateCapture (cur s) @ GenerateQuiets (cur s)))), s))"
  by (simp add: Perft.simps perft_moves_leaf Let_def rev_filter [symmetric])

text \<open>
  C7: below the last entry of the stack, \<open>Make\<close> succeeds, advances the cursor by one and
  writes the new top entry only; after the cursor is moved back by one the current board
  is the board from before \<open>Make\<close>.
\<close>

theorem Make_frame:
  assumes "length (Game s) = MAX_PLY" and "Position s + 1 < MAX_PLY"
  shows "\<exists>s'. Make m s = Some s' \<and>
           Position s' = Position s + 1 \<and>
           length (Game s') = MAX_PLY \<and>
           (\<forall>i<MAX_PLY. i \<noteq> Position s + 1 \<longrightarrow> Game s' ! i = Game s ! i) \<and>
           cur (s'\<lparr>Position := Position s' - 1\<rparr>) = cur s"
  using assms by (simp add: Make_def Let_def cur_def)


subsection \<open>The squares of a bitboard\<close>

lemma minus_1_decomp:
  assumes nz: "(bb :: TBB) \<noteq> 0"
  shows "bb - 1 = (bb AND NOT (2 ^ LSB bb)) OR mask (LSB bb)"
proof -
  let ?L = "LSB bb"
  let ?P = "(2 :: TBB) ^ ?L"
  have d: "bb - ?P = bb AND NOT ?P"
  proof (rule disjunctive_diff)
    fix n assume "bit ?P n"
    then have "n = ?L" by (simp add: bit_exp_iff)
    then show "bit bb n" using LSB_bit [OF nz] by simp
  qed
  have "bb - 1 = (bb - ?P) + (?P - 1)" by simp
  also have "\<dots> = (bb AND NOT ?P) + mask ?L" by (simp only: d mask_eq_exp_minus_1)
  also have "\<dots> = (bb AND NOT ?P) OR mask ?L"
  proof (rule disjunctive_add)
    fix n
    show "\<not> bit (bb AND NOT ?P) n \<or> \<not> bit (mask ?L :: TBB) n"
      using LSB_below [of n bb] by (auto simp add: bit_and_iff bit_mask_iff)
  qed
  finally show ?thesis .
qed

lemma bit_ClearLSB:
  assumes nz: "bb \<noteq> 0"
  shows "bit (ClearLSB bb) n \<longleftrightarrow> bit bb n \<and> n \<noteq> LSB bb"
  using LSB_below [of n bb] LSB_bit [OF nz]
  by (auto simp add: ClearLSB_def minus_1_decomp [OF nz] bit_and_iff bit_or_iff bit_not_iff
      bit_mask_iff bit_exp_iff dest: bit_imp_le_length)

lemma bit_ExtractLSB:
  assumes nz: "bb \<noteq> 0"
  shows "bit (ExtractLSB bb) n \<longleftrightarrow> n = LSB bb"
proof -
  have "- bb = NOT (bb - 1)" by (rule minus_eq_not_minus_1)
  then show ?thesis
    using LSB_below [of n bb] LSB_bit [OF nz] LSB_less [OF nz]
    by (auto simp add: ExtractLSB_def minus_1_decomp [OF nz] bit_and_iff bit_or_iff bit_not_iff
        bit_mask_iff bit_exp_iff dest: bit_imp_le_length)
qed

lemma ExtractLSB_0: "ExtractLSB 0 = 0"
  by (simp add: ExtractLSB_def)

lemma squares_set: "set (squares bb) = {n. bit bb n}"
proof (induction bb rule: squares.induct)
  case (1 bb)
  show ?case
  proof (cases "bb = 0")
    case True
    then show ?thesis by (simp add: squares.simps)
  next
    case False
    have "set (squares bb) = insert (LSB bb) (set (squares (ClearLSB bb)))"
      using False by (subst squares.simps) simp
    also have "\<dots> = insert (LSB bb) {n. bit (ClearLSB bb) n}"
      using 1 [OF False] by simp
    also have "\<dots> = {n. bit bb n}"
      using LSB_bit [OF False] by (auto simp add: bit_ClearLSB [OF False])
    finally show ?thesis .
  qed
qed

lemma squares_less: "n \<in> set (squares bb) \<Longrightarrow> n < 64"
  by (auto simp add: squares_set dest: bit_imp_le_length)

lemma word_nonzero_iff_bit: "(x :: 'a :: len word) \<noteq> 0 \<longleftrightarrow> (\<exists>n. bit x n)"
  by (auto simp add: bit_eq_iff dest: bit_imp_le_length)

lemma bit_EnPassantM_below:
  "\<forall>f<8. \<forall>n<64. bit (tbl EnPassantM f) n \<longleftrightarrow> n div 8 = 3 \<and> (n mod 8 + 1 = f \<or> n mod 8 = f + 1)"
  by (simp add: enum tbl_def EnPassantM_def)

lemma bit_EnPassantM:
  "f < 8 \<Longrightarrow> bit (tbl EnPassantM f) n \<longleftrightarrow> n < 64 \<and> n div 8 = 3 \<and> (n mod 8 + 1 = f \<or> n mod 8 = f + 1)"
  using bit_EnPassantM_below by (cases "n < 64") (auto dest: bit_imp_le_length)


lemma bit_rank4_below: "\<forall>n<64. bit (0x00000000FF000000 :: TBB) n \<longleftrightarrow> 24 \<le> n \<and> n < 32"
  by (simp add: enum)

lemma bit_rank4: "bit (0x00000000FF000000 :: TBB) n \<longleftrightarrow> 24 \<le> n \<and> n < 32"
  using bit_rank4_below by (cases "n < 64") (auto dest: bit_imp_le_length)

lemma bit_not_rank8_below: "\<forall>n<64. bit (0x00FFFFFFFFFFFFFF :: TBB) n \<longleftrightarrow> n < 56"
  by (simp add: enum)

lemma bit_not_rank8: "bit (0x00FFFFFFFFFFFFFF :: TBB) n \<longleftrightarrow> n < 56"
  using bit_not_rank8_below by (cases "n < 64") (auto dest: bit_imp_le_length)

lemma unat_of_nat_sq: "t < 64 \<Longrightarrow> unat (of_nat t :: 8 word) = t"
  by (simp add: unat_of_nat)

lemma of_nat_sq_minus: "k \<le> t \<Longrightarrow> t < 64 \<Longrightarrow> unat (of_nat t - of_nat k :: 8 word) = t - k"
proof -
  assume "k \<le> t" "t < 64"
  then have "(of_nat t - of_nat k :: 8 word) = of_nat (t - k)" by simp
  then show ?thesis using \<open>t < 64\<close> by (simp add: unat_of_nat)
qed

lemma file_of_sq: "t < 64 \<Longrightarrow> unat ((of_nat t :: 8 word) AND 7) = t mod 8"
proof -
  assume t: "t < 64"
  have "(of_nat t :: 8 word) AND 7 = take_bit 3 (of_nat t)"
    by (simp add: take_bit_eq_mask mask_eq_exp_minus_1)
  then have "unat ((of_nat t :: 8 word) AND 7) = take_bit 3 (unat (of_nat t :: 8 word))"
    by (simp add: unsigned_take_bit_eq)
  with t show ?thesis by (simp add: unat_of_nat_sq take_bit_eq_mod)
qed

lemma quiets_PAWN:
  assumes "m \<in> set (GenerateQuiets b)" and "MoveType m = PAWN"
  shows "(\<exists>t. bit ((push_bit 8 (Pawns b AND PM b) AND NOT (Occupation b)) AND 0x00FFFFFFFFFFFFFF) t \<and>
              m = \<lparr>MoveType = PAWN, From = of_nat t - 8, To = of_nat t, Prom = EMPTY\<rparr>) \<or>
         (\<exists>t. bit (push_bit 8 ((push_bit 8 (Pawns b AND PM b) AND NOT (Occupation b)) AND 0x00FFFFFFFFFFFFFF)
                    AND NOT (Occupation b) AND 0x00000000FF000000) t \<and>
              m = \<lparr>MoveType = PAWN, From = of_nat t - 16, To = of_nat t, Prom = EMPTY\<rparr>)"
  using assms
  by (auto simp add: GenerateQuiets_def Let_def squares_set piece_order_def piece_defs flag_defs
      split: if_splits)

lemma EnPassant_ChangeSide: "EnPassant (ChangeSide b) = EnPassant b"
  by (simp add: ChangeSide_def Let_def)

lemma adjacent_rank4:
  "\<forall>t<32. 24 \<le> (t :: nat) \<longrightarrow> (\<forall>s<64. (s div 8 = 3 \<and> (s mod 8 + 1 = t mod 8 \<or> s mod 8 = t mod 8 + 1)) \<longleftrightarrow>
      (s div 8 = t div 8 \<and> (s + 1 = t \<or> s = t + 1)))"
  by (simp add: enum)

text \<open>
  C5 (as amended): after a generated two-square pawn push, the \<open>EnPassant\<close> field of the
  new board is the file of the pushed pawn exactly when an opposing pawn stands on the
  same rank directly beside the destination square, whether or not that pawn could
  legally capture; otherwise it is 8.
\<close>

theorem Make_double_push_EnPassant:
  assumes gen: "m \<in> set (GenerateQuiets b)"
    and pawn: "MoveType m = PAWN"
    and two: "unat (To m) = unat (From m) + 16"
  shows "EnPassant (MakeBoard m b) =
           (if \<exists>s<64. s div 8 = unat (To m) div 8 \<and> (s + 1 = unat (To m) \<or> s = unat (To m) + 1) \<and>
                  bit (Pawns b AND NOT (PM b)) s
            then To m AND 7 else 8)"
proof -
  from quiets_PAWN [OF gen pawn] two obtain t where
    t: "bit (0x00000000FF000000 :: TBB) t"
    and m: "m = \<lparr>MoveType = PAWN, From = of_nat t - 16, To = of_nat t, Prom = EMPTY\<rparr>"
  proof (elim disjE exE conjE)
    fix t assume b: "bit ((push_bit 8 (Pawns b AND PM b) AND NOT (Occupation b)) AND 0x00FFFFFFFFFFFFFF) t"
      and m: "m = \<lparr>MoveType = PAWN, From = of_nat t - 8, To = of_nat t, Prom = EMPTY\<rparr>"
      and th: "\<And>t. bit (0x00000000FF000000 :: TBB) t \<Longrightarrow>
                 m = \<lparr>MoveType = PAWN, From = of_nat t - 16, To = of_nat t, Prom = EMPTY\<rparr> \<Longrightarrow> thesis"
    from b have "8 \<le> t" "t < 64" by (auto simp add: bit_and_iff bit_push_bit_iff dest: bit_imp_le_length)
    then have "unat (To m) = t" "unat (From m) = t - 8"
      using m of_nat_sq_minus [of 8 t] by (simp_all add: unat_of_nat_sq)
    with two \<open>8 \<le> t\<close> show thesis by simp
  next
    fix t assume b: "bit (push_bit 8 ((push_bit 8 (Pawns b AND PM b) AND NOT (Occupation b)) AND 0x00FFFFFFFFFFFFFF)
                    AND NOT (Occupation b) AND 0x00000000FF000000) t"
      and m: "m = \<lparr>MoveType = PAWN, From = of_nat t - 16, To = of_nat t, Prom = EMPTY\<rparr>"
      and th: "\<And>t. bit (0x00000000FF000000 :: TBB) t \<Longrightarrow>
                 m = \<lparr>MoveType = PAWN, From = of_nat t - 16, To = of_nat t, Prom = EMPTY\<rparr> \<Longrightarrow> thesis"
    from b have "bit (0x00000000FF000000 :: TBB) t" by (simp add: bit_and_iff)
    then show thesis using m th by blast
  qed
  from t have r: "24 \<le> t" "t < 32" using bit_rank4 [of t] by blast+
  then have t64: "t < 64" by simp
  have To: "unat (To m) = t" using m t64 by (simp add: unat_of_nat_sq)
  have From: "unat (From m) = t - 16" using m r of_nat_sq_minus [of 16 t] by simp
  have fl: "unat (To m AND 7) = t mod 8" using m t64 by (simp add: file_of_sq)
  have To': "unat (of_nat t :: 8 word) = t" using t64 by (simp add: unat_of_nat_sq)
  have From': "unat (of_nat t - 16 :: 8 word) = t - 16" using r of_nat_sq_minus [of 16 t] by simp
  have fl': "unat ((of_nat t :: 8 word) AND 7) = t mod 8" using t64 by (simp add: file_of_sq)
  define c3 where "c3 = b\<lparr>PM := PM b XOR (push_bit (t - 16) 1 OR push_bit t 1),
     P0 := P0 b XOR (push_bit (t - 16) 1 OR push_bit t 1), EnPassant := 8\<rparr>"
  have mk: "MakeBoard m b =
    ChangeSide (if tbl EnPassantM (t mod 8) AND Pawns c3 AND (PM c3 XOR Occupation c3) \<noteq> 0
                then c3\<lparr>EnPassant := To m AND 7\<rparr> else c3)"
    using r by (simp add: MakeBoard_def MakePawn_def Let_def To' From' fl' c3_def m piece_defs flag_defs)
  have same: "\<And>s. s \<noteq> t \<Longrightarrow> s \<noteq> t - 16 \<Longrightarrow>
      bit (Pawns c3 AND (PM c3 XOR Occupation c3)) s = bit (Pawns b AND NOT (PM b)) s"
    by (auto simp add: c3_def bb_defs bit_and_iff bit_or_iff bit_xor_iff bit_not_iff bit_exp_iff
        dest: bit_imp_le_length)
  have "tbl EnPassantM (t mod 8) AND Pawns c3 AND (PM c3 XOR Occupation c3) \<noteq> 0 \<longleftrightarrow>
        (\<exists>s. bit (tbl EnPassantM (t mod 8)) s \<and> bit (Pawns c3 AND (PM c3 XOR Occupation c3)) s)"
    by (simp add: word_nonzero_iff_bit bit_and_iff and.assoc)
  also have "\<dots> \<longleftrightarrow> (\<exists>s<64. s div 8 = t div 8 \<and> (s + 1 = t \<or> s = t + 1) \<and>
                  bit (Pawns b AND NOT (PM b)) s)"
  proof -
    have "\<And>s. bit (tbl EnPassantM (t mod 8)) s \<longleftrightarrow> s < 64 \<and> s div 8 = t div 8 \<and> (s + 1 = t \<or> s = t + 1)"
      using adjacent_rank4 r by (auto simp add: bit_EnPassantM)
    moreover have "\<And>s. s + 1 = t \<or> s = t + 1 \<Longrightarrow> s \<noteq> t \<and> s \<noteq> t - 16" using r by auto
    ultimately show ?thesis using same by blast
  qed
  finally have cond:
    "tbl EnPassantM (t mod 8) AND Pawns c3 AND (PM c3 XOR Occupation c3) \<noteq> 0 \<longleftrightarrow>
     (\<exists>s<64. s div 8 = t div 8 \<and> (s + 1 = t \<or> s = t + 1) \<and> bit (Pawns b AND NOT (PM b)) s)" .
  have c3_ep: "EnPassant c3 = 8" by (simp add: c3_def)
  show ?thesis
  proof (cases "\<exists>s<64. s div 8 = t div 8 \<and> (s + 1 = t \<or> s = t + 1) \<and> bit (Pawns b AND NOT (PM b)) s")
    case True
    with cond have "tbl EnPassantM (t mod 8) AND Pawns c3 AND (PM c3 XOR Occupation c3) \<noteq> 0"
      by blast
    then have "EnPassant (MakeBoard m b) = To m AND 7"
      by (simp only: mk EnPassant_ChangeSide if_True) simp
    with True show ?thesis by (simp only: To if_True)
  next
    case False
    with cond have "\<not> tbl EnPassantM (t mod 8) AND Pawns c3 AND (PM c3 XOR Occupation c3) \<noteq> 0"
      by blast
    then have "EnPassant (MakeBoard m b) = 8"
      by (simp only: mk EnPassant_ChangeSide if_False c3_ep)
    with False show ?thesis by (simp only: To if_False)
  qed
qed

lemmas eval_rules = prim_eval board_eval gen_eval make_eval perft_eval single_bit_def wf_board_def
  MAX_PLY_def

theorem Make_frame_witness:
  "length (Game start_state) = MAX_PLY \<and> Position start_state + 1 < MAX_PLY \<and>
   (\<exists>s'. Make \<lparr>MoveType = 1, From = 12, To = 28, Prom = 0\<rparr> start_state = Some s' \<and>
      Position s' = Position start_state + 1 \<and>
      length (Game s') = MAX_PLY \<and>
      (\<forall>i<MAX_PLY. i \<noteq> Position start_state + 1 \<longrightarrow> Game s' ! i = Game start_state ! i) \<and>
      cur (s'\<lparr>Position := Position s' - 1\<rparr>) = cur start_state)"
proof -
  have h: "length (Game start_state) = MAX_PLY" "Position start_state + 1 < MAX_PLY"
    by (simp_all add: start_state_def MAX_PLY_def)
  from Make_frame [OF h, of "\<lparr>MoveType = 1, From = 12, To = 28, Prom = 0\<rparr>"] h
  show ?thesis by blast
qed

theorem Make_double_push_EnPassant_witness:
  "\<lparr>MoveType = 1, From = 12, To = 28, Prom = 0\<rparr> \<in> set (GenerateQuiets pinned_ep_board) \<and>
   MoveType \<lparr>MoveType = 1, From = 12, To = 28, Prom = 0\<rparr> = PAWN \<and>
   unat (To \<lparr>MoveType = 1, From = 12, To = 28, Prom = 0\<rparr>) =
     unat (From \<lparr>MoveType = 1, From = 12, To = 28, Prom = 0\<rparr>) + 16 \<and>
   EnPassant (MakeBoard \<lparr>MoveType = 1, From = 12, To = 28, Prom = 0\<rparr> pinned_ep_board) =
     (if \<exists>s<64. s div 8 = unat (To \<lparr>MoveType = 1, From = 12, To = 28, Prom = 0\<rparr>) div 8 \<and>
            (s + 1 = unat (To \<lparr>MoveType = 1, From = 12, To = 28, Prom = 0\<rparr>) \<or>
             s = unat (To \<lparr>MoveType = 1, From = 12, To = 28, Prom = 0\<rparr>) + 1) \<and>
            bit (Pawns pinned_ep_board AND NOT (PM pinned_ep_board)) s
      then To \<lparr>MoveType = 1, From = 12, To = 28, Prom = 0\<rparr> AND 7 else 8)"
proof -
  have h1: "\<lparr>MoveType = 1, From = 12, To = 28, Prom = 0\<rparr> \<in> set (GenerateQuiets pinned_ep_board)"
    by (simp add: eval_rules pinned_ep_board_def
        cong: let_weak_cong map_weak_cong del: push_bit_numeral push_bit_Suc_numeral)
  have h2: "MoveType \<lparr>MoveType = 1, From = 12, To = 28, Prom = 0\<rparr> = PAWN"
    by (simp add: PAWN_def)
  have h3: "unat (To \<lparr>MoveType = 1, From = 12, To = 28, Prom = 0\<rparr>) =
     unat (From \<lparr>MoveType = 1, From = 12, To = 28, Prom = 0\<rparr>) + 16"
    by simp
  from Make_double_push_EnPassant [OF h1 h2 h3] h1 h2 h3 show ?thesis by blast
qed

text \<open>
  C6 (counterexample): the start position satisfies the encoding invariants, and
  \<open>Perft\<close> at depth 0 returns 20 there.
\<close>

theorem Perft_0_start_position:
  "wf_board start_board \<and> map_option fst (Perft 0 start_state) = Some 20"
  by (simp add: eval_rules start_board_def start_state_def
      cong: let_weak_cong map_weak_cong del: push_bit_numeral push_bit_Suc_numeral)

text \<open>
  C5 (counterexample): in this well-formed position the push e2-e4 is generated and
  legal and \<open>Make\<close> stores file 4, although the only en-passant capture generated in
  the new position fails the legality filter (the rook on bit 39 attacks the king).
\<close>

theorem EnPassant_set_capture_illegal:
  "wf_board pinned_ep_board \<and>
   \<lparr>MoveType = 1, From = 12, To = 28, Prom = 0\<rparr> \<in> set (GenerateQuiets pinned_ep_board) \<and>
   Illegal \<lparr>MoveType = 1, From = 12, To = 28, Prom = 0\<rparr> pinned_ep_board = 0 \<and>
   EnPassant (MakeBoard \<lparr>MoveType = 1, From = 12, To = 28, Prom = 0\<rparr> pinned_ep_board) = 4 \<and>
   GenerateCapture (MakeBoard \<lparr>MoveType = 1, From = 12, To = 28, Prom = 0\<rparr> pinned_ep_board) =
     [\<lparr>MoveType = 0x19, From = 35, To = 44, Prom = 0\<rparr>] \<and>
   Illegal \<lparr>MoveType = 0x19, From = 35, To = 44, Prom = 0\<rparr>
     (MakeBoard \<lparr>MoveType = 1, From = 12, To = 28, Prom = 0\<rparr> pinned_ep_board) = 0x8000000000"
  by (simp add: eval_rules pinned_ep_board_def
      cong: let_weak_cong map_weak_cong del: push_bit_numeral push_bit_Suc_numeral)

text \<open>
  C10: in this well-formed position \<open>GenerateCapture\<close> writes 66 moves, none of them a
  capture of the king, into the buffer of 64 of \<open>Perft\<close>.
\<close>

theorem GenerateCapture_overflow:
  "wf_board crowded_board \<and>
   length (GenerateCapture crowded_board) = 66 \<and>
   38 \<notin> set (map To (GenerateCapture crowded_board)) \<and>
   Perft 1 \<lparr>Game = replicate 32 crowded_board, Position = 0\<rparr> = None"
  by (simp add: eval_rules crowded_board_def
      cong: let_weak_cong map_weak_cong del: push_bit_numeral push_bit_Suc_numeral)

theorem GenerateCapture_overflow_witness:
  "length (GenerateCapture crowded_board) = 66 \<and>
   Perft 1 \<lparr>Game = replicate 32 crowded_board, Position = 0\<rparr> = None"
  using GenerateCapture_overflow by blast

end
